theory Spec2Isabelle
  imports Complex_Main
begin

section \<open>Consistency scoring (scoring.py)\<close>

text \<open>
  The scorer receives two Python dictionaries.  \<^verbatim>\<open>claims\<close> holds the three claim fields,
  each of which may be \<^verbatim>\<open>None\<close>; the code only ever asks \<^verbatim>\<open>claims.get(k) is not None\<close>, so
  a missing key and a key bound to \<^verbatim>\<open>None\<close> are the same case and both are \<open>None\<close> here.
  \<^verbatim>\<open>video_stats\<close> is read with \<^verbatim>\<open>.get(k, default)\<close>: a field that is \<open>None\<close> below is a
  key that the dictionary does not have.  Counts are Python integers (unbounded), the
  weapon flag is a Boolean.
\<close>

record claims =
  people :: "int option"
  cars :: "int option"
  weapon_present :: "bool option"

record video_stats =
  v_people :: "int option"
  v_cars :: "int option"
  v_weapon_present :: "bool option"

datatype pyval = PInt int | PBool bool

record claim_detail =
  claim_type :: string
  claim_value :: pyval
  video_value :: pyval
  result :: string
  note_str :: string

record score_result =
  score :: int
  details :: "claim_detail list"

text \<open>Python's \<^verbatim>\<open>str\<close> on an integer, as the f-strings of the notes use it.\<close>

definition digit_char :: "nat \<Rightarrow> char" where
  "digit_char d = char_of (48 + d)"

function str_nat :: "nat \<Rightarrow> string" where
  "str_nat n = (if n < 10 then [digit_char n] else str_nat (n div 10) @ [digit_char (n mod 10)])"
  by pat_completeness auto
termination
  by (relation "measure id") auto

declare str_nat.simps [simp del]

definition str_int :: "int \<Rightarrow> string" where
  "str_int i = (if i < 0 then CHR ''-'' # str_nat (nat (- i)) else str_nat (nat i))"

text \<open>\<^verbatim>\<open>dict.get(key, default)\<close> on a key that may be absent.\<close>

definition get_default :: "'a option \<Rightarrow> 'a \<Rightarrow> 'a" where
  "get_default field d = (case field of None \<Rightarrow> d | Some x \<Rightarrow> x)"

text \<open>
  The people block and the cars block of \<^verbatim>\<open>score_consistency\<close> are the same statements up
  to the noun; \<open>score_count\<close> is that block.  It takes the running score and the details
  gathered so far and returns both, updated.
\<close>

definition score_count :: "string \<Rightarrow> int \<Rightarrow> int \<Rightarrow> int \<times> claim_detail list \<Rightarrow> int \<times> claim_detail list" where
  "score_count noun claim_n video_n st =
     (let (score, details) = st;
          diff = \<bar>claim_n - video_n\<bar>;
          (result, note, score) =
            (if diff = 0 then
               (''supported'',
                ''Exact match: '' @ str_int claim_n @ '' '' @ noun @ '' detected'',
                score)
             else if diff \<le> 1 then
               (''partial'',
                ''Close match: claimed '' @ str_int claim_n @ '', detected '' @ str_int video_n
                  @ '' (difference: '' @ str_int diff @ '')'',
                score - 10)
             else
               (''unsupported'',
                ''Mismatch: claimed '' @ str_int claim_n @ '', detected '' @ str_int video_n
                  @ '' (difference: '' @ str_int diff @ '')'',
                score - 30))
      in (score,
          details @ [\<lparr>claim_type = noun, claim_value = PInt claim_n, video_value = PInt video_n,
                       result = result, note_str = note\<rparr>]))"

definition score_weapon :: "bool \<Rightarrow> bool \<Rightarrow> int \<times> claim_detail list \<Rightarrow> int \<times> claim_detail list" where
  "score_weapon claim_weapon video_weapon st =
     (let (score, details) = st;
          (result, note, score) =
            (if claim_weapon = video_weapon then
               (''supported'',
                (if claim_weapon then ''Weapon presence matches: both indicate weapon present''
                 else ''Weapon absence matches: both indicate no weapon''),
                score)
             else
               (''unsupported'',
                (if claim_weapon \<and> \<not> video_weapon
                 then ''Mismatch: text claims weapon present, but no weapon detected in video''
                 else ''Mismatch: text claims no weapon, but weapon detected in video''),
                score - 40))
      in (score,
          details @ [\<lparr>claim_type = ''weapon'', claim_value = PBool claim_weapon,
                       video_value = PBool video_weapon, result = result, note_str = note\<rparr>]))"

definition score_consistency :: "claims \<Rightarrow> video_stats \<Rightarrow> score_result" where
  "score_consistency cl vs =
     (let st = (100, []);
          st = (case people cl of None \<Rightarrow> st
                | Some claim_people \<Rightarrow> score_count ''people'' claim_people (get_default (v_people vs) 0) st);
          st = (case cars cl of None \<Rightarrow> st
                | Some claim_cars \<Rightarrow> score_count ''cars'' claim_cars (get_default (v_cars vs) 0) st);
          st = (case weapon_present cl of None \<Rightarrow> st
                | Some claim_weapon \<Rightarrow> score_weapon claim_weapon (get_default (v_weapon_present vs) False) st);
          (score, details) = st
      in \<lparr>score = max 0 (min 100 score), details = details\<rparr>)"


section \<open>Claim extraction (text\_parser.py)\<close>

text \<open>
  Text is a list of characters.  The model covers ASCII text: the classes \<^verbatim>\<open>\d\<close>, \<^verbatim>\<open>\s\<close>,
  \<^verbatim>\<open>\w\<close> and \<^verbatim>\<open>str.lower\<close> are the ones Python 3 applies to code points below 128, and a
  character from 128 on is taken as it stands and belongs to no class.
\<close>

definition is_digit :: "char \<Rightarrow> bool" where
  "is_digit c = (let n = (of_char c :: nat) in 48 \<le> n \<and> n \<le> 57)"

definition is_space :: "char \<Rightarrow> bool" where
  "is_space c = (let n = (of_char c :: nat) in (9 \<le> n \<and> n \<le> 13) \<or> (28 \<le> n \<and> n \<le> 32))"

definition is_word :: "char \<Rightarrow> bool" where
  "is_word c = (let n = (of_char c :: nat) in
     (48 \<le> n \<and> n \<le> 57) \<or> (65 \<le> n \<and> n \<le> 90) \<or> n = 95 \<or> (97 \<le> n \<and> n \<le> 122))"

definition lower_char :: "char \<Rightarrow> char" where
  "lower_char c = (let n = (of_char c :: nat) in if 65 \<le> n \<and> n \<le> 90 then char_of (n + 32) else c)"

definition lower :: "string \<Rightarrow> string" where
  "lower s = map lower_char s"

definition strip :: "string \<Rightarrow> string" where
  "strip s = rev (dropWhile is_space (rev (dropWhile is_space s)))"

subsection \<open>The regular expressions of the module\<close>

text \<open>
  The patterns use literals, alternation, groups, \<^verbatim>\<open>\b\<close>, \<^verbatim>\<open>\d+\<close> and \<^verbatim>\<open>\s+\<close>.  \<open>rmatch\<close>
  is the backtracking matcher of \<^verbatim>\<open>re\<close>: from one position it returns every way the pattern
  can match there, in the order in which \<^verbatim>\<open>re\<close> tries them (alternatives left to right,
  \<^verbatim>\<open>+\<close> longest first), so that the head of the list is the match \<^verbatim>\<open>re\<close> reports.  A
  position is the character before it (none at the start), the text from it on, and the
  groups captured so far.
\<close>

datatype regex =
    Lit string
  | Digits
  | Spaces
  | WordB
  | Group nat regex
  | Alt "regex list"
  | Seq "regex list"

type_synonym mstate = "char option \<times> string \<times> (nat \<times> string) list"

fun strip_prefix :: "string \<Rightarrow> string \<Rightarrow> string option" where
  "strip_prefix [] ys = Some ys"
| "strip_prefix (x # xs) [] = None"
| "strip_prefix (x # xs) (y # ys) = (if x = y then strip_prefix xs ys else None)"

definition word_before :: "char option \<Rightarrow> bool" where
  "word_before p = (case p of None \<Rightarrow> False | Some c \<Rightarrow> is_word c)"

definition word_after :: "string \<Rightarrow> bool" where
  "word_after s = (case s of [] \<Rightarrow> False | c # _ \<Rightarrow> is_word c)"

definition plus_class :: "(char \<Rightarrow> bool) \<Rightarrow> mstate \<Rightarrow> mstate list" where
  "plus_class cls st =
     (let (p, s, g) = st; run = takeWhile cls s
      in map (\<lambda>k. (Some (run ! (k - 1)), drop k s, g)) (rev [1..<Suc (length run)]))"

fun rmatch :: "regex \<Rightarrow> mstate \<Rightarrow> mstate list" where
  "rmatch (Lit w) (p, s, g) =
     (case strip_prefix w s of None \<Rightarrow> []
      | Some s' \<Rightarrow> [(if w = [] then p else Some (last w), s', g)])"
| "rmatch Digits st = plus_class is_digit st"
| "rmatch Spaces st = plus_class is_space st"
| "rmatch WordB (p, s, g) = (if word_before p \<noteq> word_after s then [(p, s, g)] else [])"
| "rmatch (Group n r) (p, s, g) =
     map (\<lambda>(p', s', g'). (p', s', (n, take (length s - length s') s) # g')) (rmatch r (p, s, g))"
| "rmatch (Alt rs) st = concat (map (\<lambda>r. rmatch r st) rs)"
| "rmatch (Seq rs) st = foldl (\<lambda>sts r. concat (map (rmatch r) sts)) [st] rs"

text \<open>\<^verbatim>\<open>re.search\<close>: the first match at the leftmost position that has one.\<close>

fun search_from :: "regex \<Rightarrow> char option \<Rightarrow> string \<Rightarrow> mstate option" where
  "search_from r p [] = (case rmatch r (p, [], []) of [] \<Rightarrow> None | m # _ \<Rightarrow> Some m)"
| "search_from r p (c # cs) =
     (case rmatch r (p, c # cs, []) of [] \<Rightarrow> search_from r (Some c) cs | m # _ \<Rightarrow> Some m)"

definition re_search :: "regex \<Rightarrow> string \<Rightarrow> mstate option" where
  "re_search r text = search_from r None text"

text \<open>\<^verbatim>\<open>match.group(n)\<close>; group 1 takes part in every match of the patterns below.\<close>

definition group :: "mstate \<Rightarrow> nat \<Rightarrow> string" where
  "group m n = (case map_of (snd (snd m)) n of None \<Rightarrow> [] | Some w \<Rightarrow> w)"


subsection \<open>Quantities\<close>

definition word_numbers :: "(string \<times> int) list" where
  "word_numbers =
     [(''zero'', 0), (''one'', 1), (''two'', 2), (''three'', 3), (''four'', 4),
      (''five'', 5), (''six'', 6), (''seven'', 7), (''eight'', 8), (''nine'', 9),
      (''ten'', 10), (''eleven'', 11), (''twelve'', 12), (''thirteen'', 13),
      (''fourteen'', 14), (''fifteen'', 15), (''sixteen'', 16), (''seventeen'', 17),
      (''eighteen'', 18), (''nineteen'', 19), (''twenty'', 20)]"

definition word_to_number :: "string \<Rightarrow> int option" where
  "word_to_number word = map_of word_numbers (lower word)"

text \<open>
  \<^verbatim>\<open>int(number_str)\<close> on what group 1 captured: a run of decimal digits gives its value,
  anything else is the \<^verbatim>\<open>ValueError\<close> that the loop answers with \<^verbatim>\<open>continue\<close>.  (The limit
  that recent interpreters put on the number of digits, 4300 by default, is not part of
  the model.)
\<close>

definition py_int :: "string \<Rightarrow> int option" where
  "py_int w =
     (if w \<noteq> [] \<and> list_all is_digit w
      then Some (foldl (\<lambda>a c. 10 * a + (int (of_char c) - 48)) 0 w)
      else None)"

subsection \<open>The patterns\<close>

definition quantity :: regex where
  "quantity =
     Alt [Lit ''one'', Lit ''two'', Lit ''three'', Lit ''four'', Lit ''five'', Lit ''six'',
          Lit ''seven'', Lit ''eight'', Lit ''nine'', Lit ''ten'', Lit ''eleven'', Lit ''twelve'',
          Lit ''thirteen'', Lit ''fourteen'', Lit ''fifteen'', Lit ''sixteen'', Lit ''seventeen'',
          Lit ''eighteen'', Lit ''nineteen'', Lit ''twenty'', Digits]"

definition people_patterns :: "regex list" where
  "people_patterns =
     [Seq [WordB, Group 1 quantity, Spaces,
           Group 2 (Alt [Lit ''people'', Lit ''persons'', Lit ''person'', Lit ''men'',
                         Lit ''women'', Lit ''men'', Lit ''individuals'']),
           WordB],
      Seq [WordB, Group 1 quantity, Spaces, Lit ''person'', WordB],
      Seq [WordB, Group 1 quantity, Spaces, Lit ''people'', WordB]]"

definition car_patterns :: "regex list" where
  "car_patterns =
     [Seq [WordB, Group 1 quantity, Spaces,
           Group 2 (Alt [Lit ''cars'', Lit ''car'', Lit ''vehicles'', Lit ''vehicle'',
                         Lit ''trucks'', Lit ''truck'', Lit ''automobiles'', Lit ''automobile'']),
           WordB],
      Seq [WordB, Group 1 quantity, Spaces, Lit ''car'', WordB],
      Seq [WordB, Group 1 quantity, Spaces, Lit ''cars'', WordB]]"

definition weapon_positive_patterns :: "regex list" where
  "weapon_positive_patterns =
     [Seq [WordB,
           Group 1 (Alt [Lit ''gun'', Lit ''guns'', Lit ''weapon'', Lit ''weapons'',
                         Lit ''firearm'', Lit ''firearms'', Lit ''knife'', Lit ''knives'',
                         Lit ''pistol'', Lit ''pistols'', Lit ''rifle'', Lit ''rifles'',
                         Lit ''handgun'', Lit ''handguns'']),
           WordB]]"

definition weapon_negative_patterns :: "regex list" where
  "weapon_negative_patterns =
     [Seq [WordB,
           Group 1 (Alt [Lit ''no'', Lit ''without'', Lit ''not'', Lit ''none'']),
           Spaces,
           Group 2 (Alt [Lit ''gun'', Lit ''guns'', Lit ''weapon'', Lit ''weapons'',
                         Lit ''firearm'', Lit ''firearms'', Lit ''knife'', Lit ''knives''])],
      Seq [WordB,
           Group 1 (Alt [Lit ''gun'', Lit ''guns'', Lit ''weapon'', Lit ''weapons'',
                         Lit ''firearm'', Lit ''firearms'', Lit ''knife'', Lit ''knives'']),
           Spaces,
           Group 2 (Alt [Lit ''not'', Lit ''absent'', Lit ''missing''])]]"

subsection \<open>extract\_claims\<close>

text \<open>
  The loop over a pattern list: the first pattern that matches and whose group 1 resolves
  to a number sets the field and ends the loop; a pattern that does not match, or whose
  group 1 does not resolve, passes to the next one.
\<close>

fun first_number :: "regex list \<Rightarrow> string \<Rightarrow> int option" where
  "first_number [] text_lower = None"
| "first_number (pattern # patterns) text_lower =
     (case re_search pattern text_lower of
        None \<Rightarrow> first_number patterns text_lower
      | Some m \<Rightarrow>
          (let number_str = group m 1 in
           case word_to_number number_str of
             Some num \<Rightarrow> Some num
           | None \<Rightarrow>
               (case py_int number_str of
                  None \<Rightarrow> first_number patterns text_lower
                | Some num \<Rightarrow> Some num)))"

definition any_search :: "regex list \<Rightarrow> string \<Rightarrow> bool" where
  "any_search patterns text_lower = list_ex (\<lambda>pattern. re_search pattern text_lower \<noteq> None) patterns"

definition extract_claims :: "string \<Rightarrow> claims" where
  "extract_claims text =
     (if text = [] \<or> strip text = [] then
        \<lparr>people = None, cars = None, weapon_present = None\<rparr>
      else
        (let text_lower = lower text;
             has_positive = any_search weapon_positive_patterns text_lower;
             has_negative = any_search weapon_negative_patterns text_lower
         in \<lparr>people = first_number people_patterns text_lower,
             cars = first_number car_patterns text_lower,
             weapon_present =
               (if has_positive \<and> \<not> has_negative then Some True
                else if has_negative then Some False
                else None)\<rparr>))"


section \<open>Video analysis (video\_analyzer.py)\<close>

text \<open>
  The detector and the video container are outside the module, so they are parameters.

  A detector result is what \<^verbatim>\<open>results[0]\<close> offers to the code: its \<^verbatim>\<open>boxes\<close> (possibly
  \<^verbatim>\<open>None\<close>), each with a class id and a confidence, and the annotated frame \<^verbatim>\<open>plot()\<close>.  The
  detector itself maps a frame to such a result, or raises (\<open>None\<close>).

  A video is what the calls on \<^verbatim>\<open>os.path\<close> and \<^verbatim>\<open>cv2.VideoCapture\<close> answer: whether the path
  exists, whether the capture is opened, the frame rate it reports, the frames that
  \<^verbatim>\<open>cap.read()\<close> delivers before it first returns no frame (finitely many: the source is a
  file), and what the first \<^verbatim>\<open>read()\<close> of a second capture on the same path delivers.

  The frame rate is a float in the code and the real number it denotes here.  The quotient
  \<^verbatim>\<open>fps / frame_rate\<close> first converts the integer rate to a float, which raises
  \<^verbatim>\<open>OverflowError\<close> when the rate rounds beyond the largest float, and raises
  \<^verbatim>\<open>ZeroDivisionError\<close> when the rate is 0.  Otherwise the model takes the quotient exactly:
  for a frame rate of at most \<open>2 ^ 52\<close> the float quotient and the exact one have the same
  \<^verbatim>\<open>max(1, int(_))\<close>, and the theorems that depend on the interval assume that bound.

  Calls on the outside world are recorded in a trace, in the order in which they happen.
\<close>

record box =
  cls :: int
  conf :: real

record 'a detections =
  boxes :: "box list option"
  plot :: 'a

record 'f video =
  path_exists :: bool
  is_opened :: bool
  fps :: real
  frames :: "'f list"
  reopened_first :: "'f option"

datatype error = FileNotFoundError | ValueError | OverflowError | ZeroDivisionError | DetectorRaised

datatype 'f event = Capture | Detect 'f | Release

record 'a analysis =
  r_people :: int
  r_cars :: int
  r_weapon_present :: bool
  r_frames :: "'a list"

record 'a loop_state =
  max_people :: int
  max_cars :: int
  st_weapon_present :: bool
  frames_to_save :: "'a list"
  frame_count :: int
  processed_count :: int

definition person_class_ids :: "int list" where
  "person_class_ids = [0]"

definition vehicle_class_ids :: "int list" where
  "vehicle_class_ids = [2, 3, 5, 7]"

definition weapon_class_ids :: "int list" where
  "weapon_class_ids = [76]"

text \<open>The loop over the boxes of one frame: (people\_count, cars\_count, has\_weapon).\<close>

fun count_boxes :: "box list \<Rightarrow> int \<times> int \<times> bool \<Rightarrow> int \<times> int \<times> bool" where
  "count_boxes [] acc = acc"
| "count_boxes (b # bs) (people_count, cars_count, has_weapon) =
     (if conf b < 0.5 then count_boxes bs (people_count, cars_count, has_weapon)
      else if cls b \<in> set person_class_ids then count_boxes bs (people_count + 1, cars_count, has_weapon)
      else if cls b \<in> set vehicle_class_ids then count_boxes bs (people_count, cars_count + 1, has_weapon)
      else if cls b \<in> set weapon_class_ids then count_boxes bs (people_count, cars_count, True)
      else count_boxes bs (people_count, cars_count, has_weapon))"

definition count_frame :: "'a detections \<Rightarrow> int \<times> int \<times> bool" where
  "count_frame det =
     (case boxes det of None \<Rightarrow> (0, 0, False) | Some bs \<Rightarrow> count_boxes bs (0, 0, False))"

text \<open>
  The \<^verbatim>\<open>while True\<close> loop, by recursion on the frames still to be read.  A detector that
  raises ends the function there: nothing after the call runs.
\<close>

fun process_frames ::
  "('f \<Rightarrow> 'a detections option) \<Rightarrow> int \<Rightarrow> 'f list \<Rightarrow> 'a loop_state \<Rightarrow> 'f event list
     \<Rightarrow> (error + 'a loop_state) \<times> 'f event list" where
  "process_frames model frame_interval [] st trace = (Inr st, trace)"
| "process_frames model frame_interval (frame # rest) st trace =
     (if frame_count st mod frame_interval = 0 then
        (case model frame of
           None \<Rightarrow> (Inl DetectorRaised, trace @ [Detect frame])
         | Some det \<Rightarrow>
             (let (people_count, cars_count, has_weapon) = count_frame det
              in process_frames model frame_interval rest
                   (st\<lparr>max_people := max (max_people st) people_count,
                       max_cars := max (max_cars st) cars_count,
                       st_weapon_present := (if has_weapon then True else st_weapon_present st),
                       frames_to_save := frames_to_save st @ [plot det],
                       processed_count := processed_count st + 1,
                       frame_count := frame_count st + 1\<rparr>)
                   (trace @ [Detect frame])))
      else process_frames model frame_interval rest (st\<lparr>frame_count := frame_count st + 1\<rparr>) trace)"

text \<open>
  The integers that convert to a float: those that round (to nearest, ties to even) to at
  most the largest float \<open>2 ^ 1024 - 2 ^ 971\<close>.
\<close>

definition fits_float :: "int \<Rightarrow> bool" where
  "fits_float n = (\<bar>n\<bar> < 2 ^ 1024 - 2 ^ 970)"

text \<open>\<^verbatim>\<open>int(x)\<close> on a float: truncation towards zero.\<close>

definition py_trunc :: "real \<Rightarrow> int" where
  "py_trunc x = (if x < 0 then \<lceil>x\<rceil> else \<lfloor>x\<rfloor>)"

text \<open>The choice among the saved frames when there is at least one.\<close>

definition select_frames :: "'a list \<Rightarrow> 'a list" where
  "select_frames saved =
     (if length saved \<le> 3 then saved
      else [saved ! 0, saved ! (length saved div 2), last saved])"

definition analyze_video ::
  "('f \<Rightarrow> 'a detections option) \<Rightarrow> 'f video \<Rightarrow> int \<Rightarrow> (error + 'a analysis) \<times> 'f event list" where
  "analyze_video model video frame_rate =
     (if \<not> path_exists video then (Inl FileNotFoundError, [])
      else if \<not> is_opened video then (Inl ValueError, [Capture])
      else if fps video \<le> 0 then (Inl ValueError, [Capture])
      else if \<not> fits_float frame_rate then (Inl OverflowError, [Capture])
      else if frame_rate = 0 then (Inl ZeroDivisionError, [Capture])
      else
        (let frame_interval = max 1 (py_trunc (fps video / real_of_int frame_rate));
             st0 = \<lparr>max_people = 0, max_cars = 0, st_weapon_present = False,
                    frames_to_save = [], frame_count = 0, processed_count = 0\<rparr>
         in case process_frames model frame_interval (frames video) st0 [Capture] of
              (Inl e, trace) \<Rightarrow> (Inl e, trace)
            | (Inr st, trace) \<Rightarrow>
                (let trace = trace @ [Release]
                 in if length (frames_to_save st) > 0 then
                      (Inr \<lparr>r_people = max_people st, r_cars = max_cars st,
                            r_weapon_present = st_weapon_present st,
                            r_frames = select_frames (frames_to_save st)\<rparr>,
                       trace)
                    else
                      (case reopened_first video of
                         None \<Rightarrow>
                           (Inr \<lparr>r_people = max_people st, r_cars = max_cars st,
                                 r_weapon_present = st_weapon_present st, r_frames = []\<rparr>,
                            trace @ [Capture, Release])
                       | Some frame \<Rightarrow>
                           (case model frame of
                              None \<Rightarrow> (Inl DetectorRaised, trace @ [Capture, Detect frame])
                            | Some det \<Rightarrow>
                                (Inr \<lparr>r_people = max_people st, r_cars = max_cars st,
                                      r_weapon_present = st_weapon_present st,
                                      r_frames = [plot det]\<rparr>,
                                 trace @ [Capture, Detect frame, Release]))))))"


section \<open>The notions of the specification\<close>

text \<open>
  The definitions of this section are not translated from the code: they say, in the
  words of the specification, what the code is compared with.
\<close>

subsection \<open>Scoring\<close>

text \<open>
  The verdict (result and penalty) for a numeric claim whose absolute difference from the
  detected value is \<open>diff\<close>, and for a weapon claim.
\<close>

definition spec_count_verdict :: "nat \<Rightarrow> string \<times> int" where
  "spec_count_verdict diff =
     (if diff = 0 then (''supported'', 0)
      else if diff = 1 then (''partial'', 10)
      else (''unsupported'', 30))"

definition spec_weapon_verdict :: "bool \<Rightarrow> bool \<Rightarrow> string \<times> int" where
  "spec_weapon_verdict claim detected =
     (if claim = detected then (''supported'', 0) else (''unsupported'', 40))"

definition verdicts :: "score_result \<Rightarrow> (string \<times> string) list" where
  "verdicts r = map (\<lambda>d. (claim_type d, result d)) (details r)"

text \<open>
  The penalty each claim field contributes: none when the field is unset, otherwise the
  verdict's penalty against the detected value (\<open>0\<close> or \<open>False\<close> when the video side lacks
  the key).
\<close>

definition people_penalty :: "claims \<Rightarrow> video_stats \<Rightarrow> int" where
  "people_penalty cl vs = (case people cl of None \<Rightarrow> 0
       | Some c \<Rightarrow> snd (spec_count_verdict (nat \<bar>c - get_default (v_people vs) 0\<bar>)))"

definition cars_penalty :: "claims \<Rightarrow> video_stats \<Rightarrow> int" where
  "cars_penalty cl vs = (case cars cl of None \<Rightarrow> 0
       | Some c \<Rightarrow> snd (spec_count_verdict (nat \<bar>c - get_default (v_cars vs) 0\<bar>)))"

definition weapon_penalty :: "claims \<Rightarrow> video_stats \<Rightarrow> int" where
  "weapon_penalty cl vs = (case weapon_present cl of None \<Rightarrow> 0
       | Some c \<Rightarrow> snd (spec_weapon_verdict c (get_default (v_weapon_present vs) False)))"

subsection \<open>Sampling and aggregation\<close>

text \<open>
  The sampled frames are those whose index is a multiple of the interval, in ascending
  order of index; \<open>sampled_from\<close> is the same selection when the first frame of the list
  has index \<open>k\<close>.  A qualifying detection has confidence at least 0.5.  \<open>held\<close> counts the
  captures of a trace that were made and not released.
\<close>

definition sampled :: "int \<Rightarrow> 'f list \<Rightarrow> 'f list" where
  "sampled interval fs = map (\<lambda>i. fs ! i) (filter (\<lambda>i. int i mod interval = 0) [0..<length fs])"

definition qualifying :: "'a detections \<Rightarrow> box list" where
  "qualifying det = filter (\<lambda>b. conf b \<ge> 0.5) (case boxes det of None \<Rightarrow> [] | Some bs \<Rightarrow> bs)"

definition spec_people_count :: "'a detections \<Rightarrow> int" where
  "spec_people_count det = int (length (filter (\<lambda>b. cls b \<in> set person_class_ids) (qualifying det)))"

definition spec_cars_count :: "'a detections \<Rightarrow> int" where
  "spec_cars_count det = int (length (filter (\<lambda>b. cls b \<in> set vehicle_class_ids) (qualifying det)))"

definition spec_has_weapon :: "'a detections \<Rightarrow> bool" where
  "spec_has_weapon det = list_ex (\<lambda>b. cls b \<in> set weapon_class_ids) (qualifying det)"

definition spec_max :: "int list \<Rightarrow> int" where
  "spec_max xs = Max (insert 0 (set xs))"

fun sampled_from :: "int \<Rightarrow> int \<Rightarrow> 'f list \<Rightarrow> 'f list" where
  "sampled_from k interval [] = []"
| "sampled_from k interval (f # fs) =
     (if k mod interval = 0 then f # sampled_from (k + 1) interval fs
      else sampled_from (k + 1) interval fs)"

definition spec_interval :: "real \<Rightarrow> int \<Rightarrow> int" where
  "spec_interval native_fps target_rate = max 1 \<lfloor>native_fps / real_of_int target_rate\<rfloor>"

fun held :: "'f event list \<Rightarrow> int" where
  "held [] = 0"
| "held (Capture # es) = held es + 1"
| "held (Release # es) = held es - 1"
| "held (Detect f # es) = held es"

text \<open>
  The annotated frames of the sampled frames, in order: what the loop has saved when it
  ends, for a detector \<open>d\<close> that does not raise.
\<close>

definition processed_frames :: "('f \<Rightarrow> 'a detections) \<Rightarrow> 'f video \<Rightarrow> int \<Rightarrow> 'a list" where
  "processed_frames d v rate = map (\<lambda>f. plot (d f)) (sampled (spec_interval (fps v) rate) (frames v))"

text \<open>
  Inputs for the examples: two detectors and four videos, with frames numbered.  The empty
  video exists and opens, and no frame can be read from it.
\<close>

definition raising_detector :: "nat \<Rightarrow> nat detections option" where
  "raising_detector f = None"

definition plain_detector :: "nat \<Rightarrow> nat detections" where
  "plain_detector f = \<lparr>boxes = None, plot = f\<rparr>"

definition one_frame_video :: "nat video" where
  "one_frame_video = \<lparr>path_exists = True, is_opened = True, fps = 30, frames = [7], reopened_first = Some 7\<rparr>"

definition ten_frame_video :: "nat video" where
  "ten_frame_video = \<lparr>path_exists = True, is_opened = True, fps = 25,
     frames = [0, 1, 2, 3, 4, 5, 6, 7, 8, 9], reopened_first = Some 0\<rparr>"

definition empty_video :: "nat video" where
  "empty_video = \<lparr>path_exists = True, is_opened = True, fps = 25, frames = [], reopened_first = None\<rparr>"

definition missing_video :: "nat video" where
  "missing_video = \<lparr>path_exists = False, is_opened = False, fps = 0, frames = [], reopened_first = None\<rparr>"

text \<open>
  A detector with boxes: frame 5 shows two people at or above the threshold and one
  below it, a car below it and a truck above it; frame 4 shows a knife.
\<close>

definition busy_detector :: "nat \<Rightarrow> nat detections" where
  "busy_detector f =
     \<lparr>boxes = Some (if f = 5 then [\<lparr>cls = 0, conf = 0.9\<rparr>, \<lparr>cls = 0, conf = 0.5\<rparr>, \<lparr>cls = 0, conf = 0.49\<rparr>,
                                    \<lparr>cls = 2, conf = 0.4\<rparr>, \<lparr>cls = 7, conf = 0.8\<rparr>]
                    else if f = 4 then [\<lparr>cls = 76, conf = 0.7\<rparr>]
                    else [\<lparr>cls = 0, conf = 0.6\<rparr>]),
      plot = f\<rparr>"

section \<open>Properties of the scorer\<close>

lemma score_count_fst:
  "fst (score_count noun c v st) = fst st - snd (spec_count_verdict (nat \<bar>c - v\<bar>))"
  by (cases st) (auto simp add: score_count_def spec_count_verdict_def Let_def)

lemma score_count_verdicts:
  "map (\<lambda>d. (claim_type d, result d)) (snd (score_count noun c v st)) =
     map (\<lambda>d. (claim_type d, result d)) (snd st) @ [(noun, fst (spec_count_verdict (nat \<bar>c - v\<bar>)))]"
  by (cases st) (auto simp add: score_count_def spec_count_verdict_def Let_def)

lemma score_weapon_fst:
  "fst (score_weapon c v st) = fst st - snd (spec_weapon_verdict c v)"
  by (cases st) (simp add: score_weapon_def spec_weapon_verdict_def Let_def)

lemma score_weapon_verdicts:
  "map (\<lambda>d. (claim_type d, result d)) (snd (score_weapon c v st)) =
     map (\<lambda>d. (claim_type d, result d)) (snd st) @ [(''weapon'', fst (spec_weapon_verdict c v))]"
  by (cases st) (simp add: score_weapon_def spec_weapon_verdict_def Let_def)

lemma spec_count_penalty_range: "0 \<le> snd (spec_count_verdict d) \<and> snd (spec_count_verdict d) \<le> 30"
  by (simp add: spec_count_verdict_def)

lemma spec_weapon_penalty_range: "0 \<le> snd (spec_weapon_verdict c v) \<and> snd (spec_weapon_verdict c v) \<le> 40"
  by (simp add: spec_weapon_verdict_def)

lemma raw_score:
  "score (score_consistency cl vs) =
     max 0 (min 100 (100 - people_penalty cl vs - cars_penalty cl vs - weapon_penalty cl vs))"
  by (simp add: score_consistency_def Let_def split_def score_count_fst score_weapon_fst
      people_penalty_def cars_penalty_def weapon_penalty_def split: option.splits)

lemma score_eq:
  "score (score_consistency cl vs) =
     100 - people_penalty cl vs - cars_penalty cl vs - weapon_penalty cl vs"
proof -
  have "0 \<le> people_penalty cl vs \<and> people_penalty cl vs \<le> 30"
    using spec_count_penalty_range by (simp add: people_penalty_def split: option.splits)
  moreover have "0 \<le> cars_penalty cl vs \<and> cars_penalty cl vs \<le> 30"
    using spec_count_penalty_range by (simp add: cars_penalty_def split: option.splits)
  moreover have "0 \<le> weapon_penalty cl vs \<and> weapon_penalty cl vs \<le> 40"
    using spec_weapon_penalty_range by (simp add: weapon_penalty_def split: option.splits)
  ultimately show ?thesis unfolding raw_score by linarith
qed

lemma verdicts_eq:
  "verdicts (score_consistency cl vs) =
     (case people cl of None \<Rightarrow> []
      | Some c \<Rightarrow> [(''people'', fst (spec_count_verdict (nat \<bar>c - get_default (v_people vs) 0\<bar>)))]) @
     (case cars cl of None \<Rightarrow> []
      | Some c \<Rightarrow> [(''cars'', fst (spec_count_verdict (nat \<bar>c - get_default (v_cars vs) 0\<bar>)))]) @
     (case weapon_present cl of None \<Rightarrow> []
      | Some c \<Rightarrow> [(''weapon'', fst (spec_weapon_verdict c (get_default (v_weapon_present vs) False)))])"
  by (simp add: verdicts_def score_consistency_def Let_def split_def score_count_verdicts score_weapon_verdicts
      split: option.splits)

subsection \<open>The claims about the scorer\<close>

text \<open>
  C1.  For every claims record and every video statistics, the score is 100 less the
  penalty of each set claim field, and the results of the details are the documented
  ones: for people and cars, with \<open>diff\<close> the absolute difference of the claimed and the
  detected value, \<open>diff = 0\<close> is supported with penalty 0, \<open>diff = 1\<close> partial with penalty
  10, \<open>diff \<ge> 2\<close> unsupported with penalty 30; for the weapon, equal Booleans are supported
  with penalty 0 and unequal ones unsupported with penalty 40.
\<close>

theorem score_consistency_penalties:
  "score (score_consistency cl vs) =
     100 - people_penalty cl vs - cars_penalty cl vs - weapon_penalty cl vs \<and>
   verdicts (score_consistency cl vs) =
     (case people cl of None \<Rightarrow> []
      | Some c \<Rightarrow> [(''people'', fst (spec_count_verdict (nat \<bar>c - get_default (v_people vs) 0\<bar>)))]) @
     (case cars cl of None \<Rightarrow> []
      | Some c \<Rightarrow> [(''cars'', fst (spec_count_verdict (nat \<bar>c - get_default (v_cars vs) 0\<bar>)))]) @
     (case weapon_present cl of None \<Rightarrow> []
      | Some c \<Rightarrow> [(''weapon'', fst (spec_weapon_verdict c (get_default (v_weapon_present vs) False)))])"
  using score_eq verdicts_eq by blast

theorem score_consistency_penalties_witness:
  "score (score_consistency \<lparr>people = Some 5, cars = Some 3, weapon_present = Some True\<rparr>
            \<lparr>v_people = Some 3, v_cars = Some 2, v_weapon_present = Some True\<rparr>) = 60 \<and>
   verdicts (score_consistency \<lparr>people = Some 5, cars = Some 3, weapon_present = Some True\<rparr>
            \<lparr>v_people = Some 3, v_cars = Some 2, v_weapon_present = Some True\<rparr>) =
     [(''people'', ''unsupported''), (''cars'', ''partial''), (''weapon'', ''supported'')]"
  using score_consistency_penalties
    [of "\<lparr>people = Some 5, cars = Some 3, weapon_present = Some True\<rparr>"
        "\<lparr>v_people = Some 3, v_cars = Some 2, v_weapon_present = Some True\<rparr>"]
  by (simp add: people_penalty_def cars_penalty_def weapon_penalty_def spec_count_verdict_def
      spec_weapon_verdict_def get_default_def)

text \<open>
  C2.  The score always lies between 0 and 100; and when the people claim and the cars
  claim each miss by 2 or more and the weapon claim differs from the detection, the score
  is exactly 0.
\<close>

theorem score_in_range:
  "0 \<le> score (score_consistency cl vs) \<and> score (score_consistency cl vs) \<le> 100 \<and>
   ((\<exists>p. people cl = Some p \<and> 2 \<le> \<bar>p - get_default (v_people vs) 0\<bar>) \<and>
    (\<exists>c. cars cl = Some c \<and> 2 \<le> \<bar>c - get_default (v_cars vs) 0\<bar>) \<and>
    (\<exists>w. weapon_present cl = Some w \<and> w \<noteq> get_default (v_weapon_present vs) False)
      \<longrightarrow> score (score_consistency cl vs) = 0)"
proof -
  have "0 \<le> score (score_consistency cl vs) \<and> score (score_consistency cl vs) \<le> 100"
    unfolding raw_score by simp
  moreover have "score (score_consistency cl vs) = 0"
    if "people cl = Some p" "2 \<le> \<bar>p - get_default (v_people vs) 0\<bar>"
       "cars cl = Some c" "2 \<le> \<bar>c - get_default (v_cars vs) 0\<bar>"
       "weapon_present cl = Some w" "w \<noteq> get_default (v_weapon_present vs) False" for p c w
  proof -
    from that(2) have "snd (spec_count_verdict (nat \<bar>p - get_default (v_people vs) 0\<bar>)) = 30"
      by (auto simp: spec_count_verdict_def)
    moreover from that(4) have "snd (spec_count_verdict (nat \<bar>c - get_default (v_cars vs) 0\<bar>)) = 30"
      by (auto simp: spec_count_verdict_def)
    moreover from that(6) have "snd (spec_weapon_verdict w (get_default (v_weapon_present vs) False)) = 40"
      by (simp add: spec_weapon_verdict_def)
    ultimately show ?thesis
      using that(1,3,5)
      by (simp add: score_eq people_penalty_def cars_penalty_def weapon_penalty_def)
  qed
  ultimately show ?thesis by blast
qed

theorem score_in_range_witness:
  "score (score_consistency \<lparr>people = Some 5, cars = Some 0, weapon_present = Some True\<rparr>
            \<lparr>v_people = Some 1, v_cars = Some 4, v_weapon_present = Some False\<rparr>) = 0"
  using score_in_range
    [of "\<lparr>people = Some 5, cars = Some 0, weapon_present = Some True\<rparr>"
        "\<lparr>v_people = Some 1, v_cars = Some 4, v_weapon_present = Some False\<rparr>"]
  by (auto simp: get_default_def)

text \<open>
  C5.  The details hold one entry for each claim field that is set and none for a field
  that is unset, whatever the video side holds, in the order people, cars, weapon; so
  there are at most three; and when no field is set the details are empty and the score
  is 100.
\<close>

theorem details_follow_claims:
  "map claim_type (details (score_consistency cl vs)) =
     (if people cl \<noteq> None then [''people''] else []) @
     (if cars cl \<noteq> None then [''cars''] else []) @
     (if weapon_present cl \<noteq> None then [''weapon''] else []) \<and>
   length (details (score_consistency cl vs)) \<le> 3 \<and>
   (people cl = None \<and> cars cl = None \<and> weapon_present cl = None \<longrightarrow>
      details (score_consistency cl vs) = [] \<and> score (score_consistency cl vs) = 100)"
proof -
  have types: "map claim_type (details (score_consistency cl vs)) = map fst (verdicts (score_consistency cl vs))"
    by (simp add: verdicts_def comp_def)
  have a: "map claim_type (details (score_consistency cl vs)) =
     (if people cl \<noteq> None then [''people''] else []) @
     (if cars cl \<noteq> None then [''cars''] else []) @
     (if weapon_present cl \<noteq> None then [''weapon''] else [])"
    unfolding types verdicts_eq by (simp split: option.splits)
  have "length (details (score_consistency cl vs)) = length (map claim_type (details (score_consistency cl vs)))"
    by simp
  also have "\<dots> \<le> 3" unfolding a by simp
  finally have b: "length (details (score_consistency cl vs)) \<le> 3" .
  have c: "details (score_consistency cl vs) = [] \<and> score (score_consistency cl vs) = 100"
    if "people cl = None" "cars cl = None" "weapon_present cl = None"
    using that by (simp add: score_consistency_def)
  from a b c show ?thesis by blast
qed

theorem details_follow_claims_witness:
  "details (score_consistency \<lparr>people = None, cars = None, weapon_present = None\<rparr>
              \<lparr>v_people = Some 4, v_cars = Some 2, v_weapon_present = Some True\<rparr>) = [] \<and>
   score (score_consistency \<lparr>people = None, cars = None, weapon_present = None\<rparr>
              \<lparr>v_people = Some 4, v_cars = Some 2, v_weapon_present = Some True\<rparr>) = 100 \<and>
   map claim_type (details (score_consistency \<lparr>people = Some 1, cars = None, weapon_present = Some False\<rparr>
              \<lparr>v_people = None, v_cars = None, v_weapon_present = None\<rparr>)) = [''people'', ''weapon'']"
  using details_follow_claims
    [of "\<lparr>people = None, cars = None, weapon_present = None\<rparr>"
        "\<lparr>v_people = Some 4, v_cars = Some 2, v_weapon_present = Some True\<rparr>"]
    details_follow_claims
    [of "\<lparr>people = Some 1, cars = None, weapon_present = Some False\<rparr>"
        "\<lparr>v_people = None, v_cars = None, v_weapon_present = None\<rparr>"]
  by simp

lemma score_count_details:
  "\<exists>d. snd (score_count noun c v st) = snd st @ [d] \<and>
       claim_type d = noun \<and> claim_value d = PInt c \<and> video_value d = PInt v"
  by (cases st) (simp add: score_count_def Let_def split_def)

lemma score_weapon_details:
  "\<exists>d. snd (score_weapon c v st) = snd st @ [d] \<and>
       claim_type d = ''weapon'' \<and> claim_value d = PBool c \<and> video_value d = PBool v"
  by (cases st) (simp add: score_weapon_def Let_def split_def)

lemma score_count_keeps: "x \<in> set (snd st) \<Longrightarrow> x \<in> set (snd (score_count noun c v st))"
  using score_count_details [of noun c v st] by auto

lemma score_weapon_keeps: "x \<in> set (snd st) \<Longrightarrow> x \<in> set (snd (score_weapon c v st))"
  using score_weapon_details [of c v st] by auto

lemma score_count_new:
  "\<exists>d \<in> set (snd (score_count noun c v st)).
     claim_type d = noun \<and> claim_value d = PInt c \<and> video_value d = PInt v"
  using score_count_details [of noun c v st] by auto

lemma score_weapon_new:
  "\<exists>d \<in> set (snd (score_weapon c v st)).
     claim_type d = ''weapon'' \<and> claim_value d = PBool c \<and> video_value d = PBool v"
  using score_weapon_details [of c v st] by auto

lemma details_unfold:
  "details (score_consistency cl vs) =
     snd (case weapon_present cl of
            None \<Rightarrow>
              (case cars cl of
                 None \<Rightarrow>
                   (case people cl of None \<Rightarrow> (100, [])
                    | Some c \<Rightarrow> score_count ''people'' c (get_default (v_people vs) 0) (100, []))
               | Some c' \<Rightarrow>
                   score_count ''cars'' c' (get_default (v_cars vs) 0)
                     (case people cl of None \<Rightarrow> (100, [])
                      | Some c \<Rightarrow> score_count ''people'' c (get_default (v_people vs) 0) (100, [])))
          | Some w \<Rightarrow>
              score_weapon w (get_default (v_weapon_present vs) False)
                (case cars cl of
                   None \<Rightarrow>
                     (case people cl of None \<Rightarrow> (100, [])
                      | Some c \<Rightarrow> score_count ''people'' c (get_default (v_people vs) 0) (100, []))
                 | Some c' \<Rightarrow>
                     score_count ''cars'' c' (get_default (v_cars vs) 0)
                       (case people cl of None \<Rightarrow> (100, [])
                        | Some c \<Rightarrow> score_count ''people'' c (get_default (v_people vs) 0) (100, []))))"
  by (simp add: score_consistency_def Let_def split_def)

lemma people_detail:
  assumes "people cl = Some c"
  shows "\<exists>d \<in> set (details (score_consistency cl vs)).
           claim_type d = ''people'' \<and> claim_value d = PInt c \<and>
           video_value d = PInt (get_default (v_people vs) 0)"
proof -
  obtain d where d: "d \<in> set (snd (score_count ''people'' c (get_default (v_people vs) 0) (100, [])))"
    "claim_type d = ''people''" "claim_value d = PInt c"
    "video_value d = PInt (get_default (v_people vs) 0)"
    using score_count_new by blast
  have "d \<in> set (details (score_consistency cl vs))"
    unfolding details_unfold using assms d(1)
    by (cases "cars cl"; cases "weapon_present cl")
       (simp_all add: score_count_keeps score_weapon_keeps)
  with d show ?thesis by blast
qed

lemma cars_detail:
  assumes "cars cl = Some c"
  shows "\<exists>d \<in> set (details (score_consistency cl vs)).
           claim_type d = ''cars'' \<and> claim_value d = PInt c \<and>
           video_value d = PInt (get_default (v_cars vs) 0)"
proof -
  let ?st = "case people cl of None \<Rightarrow> (100, [])
             | Some c \<Rightarrow> score_count ''people'' c (get_default (v_people vs) 0) (100, [])"
  obtain d where d: "d \<in> set (snd (score_count ''cars'' c (get_default (v_cars vs) 0) ?st))"
    "claim_type d = ''cars''" "claim_value d = PInt c"
    "video_value d = PInt (get_default (v_cars vs) 0)"
    using score_count_new by blast
  have "d \<in> set (details (score_consistency cl vs))"
    unfolding details_unfold using assms d(1)
    by (cases "weapon_present cl") (simp_all add: score_weapon_keeps)
  with d show ?thesis by blast
qed

lemma weapon_detail:
  assumes "weapon_present cl = Some w"
  shows "\<exists>d \<in> set (details (score_consistency cl vs)).
           claim_type d = ''weapon'' \<and> claim_value d = PBool w \<and>
           video_value d = PBool (get_default (v_weapon_present vs) False)"
  unfolding details_unfold using assms score_weapon_new by simp

lemma score_consistency_cong:
  assumes "get_default (v_people vs) 0 = get_default (v_people vs') 0"
    and "get_default (v_cars vs) 0 = get_default (v_cars vs') 0"
    and "get_default (v_weapon_present vs) False = get_default (v_weapon_present vs') False"
  shows "score_consistency cl vs = score_consistency cl vs'"
  unfolding score_consistency_def assms ..

text \<open>
  C10.  A video side that lacks a key is scored like one that holds the default for it
  (0 for people and for cars, \<open>False\<close> for the weapon): the function is total, and a set
  claim field whose video key is missing still gets its detail, with the default as the
  video value.
\<close>

theorem missing_video_key_defaults:
  "score_consistency cl (vs\<lparr>v_people := None\<rparr>) = score_consistency cl (vs\<lparr>v_people := Some 0\<rparr>) \<and>
   score_consistency cl (vs\<lparr>v_cars := None\<rparr>) = score_consistency cl (vs\<lparr>v_cars := Some 0\<rparr>) \<and>
   score_consistency cl (vs\<lparr>v_weapon_present := None\<rparr>) =
     score_consistency cl (vs\<lparr>v_weapon_present := Some False\<rparr>) \<and>
   (\<forall>c. people cl = Some c \<and> v_people vs = None \<longrightarrow>
      (\<exists>d \<in> set (details (score_consistency cl vs)).
         claim_type d = ''people'' \<and> claim_value d = PInt c \<and> video_value d = PInt 0)) \<and>
   (\<forall>c. cars cl = Some c \<and> v_cars vs = None \<longrightarrow>
      (\<exists>d \<in> set (details (score_consistency cl vs)).
         claim_type d = ''cars'' \<and> claim_value d = PInt c \<and> video_value d = PInt 0)) \<and>
   (\<forall>w. weapon_present cl = Some w \<and> v_weapon_present vs = None \<longrightarrow>
      (\<exists>d \<in> set (details (score_consistency cl vs)).
         claim_type d = ''weapon'' \<and> claim_value d = PBool w \<and> video_value d = PBool False))"
proof -
  have 1: "score_consistency cl (vs\<lparr>v_people := None\<rparr>) = score_consistency cl (vs\<lparr>v_people := Some 0\<rparr>)"
    by (rule score_consistency_cong) (simp_all add: get_default_def)
  have 2: "score_consistency cl (vs\<lparr>v_cars := None\<rparr>) = score_consistency cl (vs\<lparr>v_cars := Some 0\<rparr>)"
    by (rule score_consistency_cong) (simp_all add: get_default_def)
  have 3: "score_consistency cl (vs\<lparr>v_weapon_present := None\<rparr>) =
     score_consistency cl (vs\<lparr>v_weapon_present := Some False\<rparr>)"
    by (rule score_consistency_cong) (simp_all add: get_default_def)
  have 4: "\<exists>d \<in> set (details (score_consistency cl vs)).
         claim_type d = ''people'' \<and> claim_value d = PInt c \<and> video_value d = PInt 0"
    if "people cl = Some c" "v_people vs = None" for c
    using people_detail [OF that(1), of vs] that(2) by (simp add: get_default_def)
  have 5: "\<exists>d \<in> set (details (score_consistency cl vs)).
         claim_type d = ''cars'' \<and> claim_value d = PInt c \<and> video_value d = PInt 0"
    if "cars cl = Some c" "v_cars vs = None" for c
    using cars_detail [OF that(1), of vs] that(2) by (simp add: get_default_def)
  have 6: "\<exists>d \<in> set (details (score_consistency cl vs)).
         claim_type d = ''weapon'' \<and> claim_value d = PBool w \<and> video_value d = PBool False"
    if "weapon_present cl = Some w" "v_weapon_present vs = None" for w
    using weapon_detail [OF that(1), of vs] that(2) by (simp add: get_default_def)
  from 1 2 3 4 5 6 show ?thesis by blast
qed

theorem missing_video_key_defaults_witness:
  "score (score_consistency \<lparr>people = Some 2, cars = Some 1, weapon_present = Some True\<rparr>
            \<lparr>v_people = None, v_cars = None, v_weapon_present = None\<rparr>) = 20 \<and>
   (\<exists>d \<in> set (details (score_consistency \<lparr>people = Some 2, cars = Some 1, weapon_present = Some True\<rparr>
            \<lparr>v_people = None, v_cars = None, v_weapon_present = None\<rparr>)).
      claim_type d = ''people'' \<and> claim_value d = PInt 2 \<and> video_value d = PInt 0)"
proof -
  let ?cl = "\<lparr>people = Some 2, cars = Some 1, weapon_present = Some True\<rparr>"
  let ?vs = "\<lparr>v_people = None, v_cars = None, v_weapon_present = None\<rparr>"
  have hyp: "people ?cl = Some 2 \<and> v_people ?vs = None" by simp
  from missing_video_key_defaults [of ?cl ?vs] hyp
  have "\<exists>d \<in> set (details (score_consistency ?cl ?vs)).
      claim_type d = ''people'' \<and> claim_value d = PInt 2 \<and> video_value d = PInt 0"
    by blast
  moreover have "score (score_consistency ?cl ?vs) = 20"
    by (simp add: score_eq people_penalty_def cars_penalty_def weapon_penalty_def
        spec_count_verdict_def spec_weapon_verdict_def get_default_def)
  ultimately show ?thesis by blast
qed

section \<open>Properties of the analyzer\<close>

lemma sampled_from_index:
  "sampled_from k iv fs = map (\<lambda>i. fs ! i) (filter (\<lambda>i. (k + int i) mod iv = 0) [0..<length fs])"
proof (induction fs arbitrary: k)
  case Nil
  show ?case by simp
next
  case (Cons f fs)
  have upt: "[0..<length (f # fs)] = 0 # map Suc [0..<length fs]"
    by (simp add: upt_conv_Cons map_Suc_upt del: upt_Suc)
  have shift: "(\<lambda>i. (k + int i) mod iv = 0) \<circ> Suc = (\<lambda>i. (k + 1 + int i) mod iv = 0)"
    by (simp add: fun_eq_iff add.assoc)
  show ?case
    unfolding upt
    by (simp add: Cons.IH filter_map shift del: upt_Suc)
qed

lemma sampled_from_0: "sampled_from 0 iv fs = sampled iv fs"
  by (simp add: sampled_from_index sampled_def)

lemma count_boxes_eq:
  "count_boxes bs (p, c, w) =
     (p + int (length (filter (\<lambda>b. cls b \<in> set person_class_ids) (filter (\<lambda>b. conf b \<ge> 0.5) bs))),
      c + int (length (filter (\<lambda>b. cls b \<in> set vehicle_class_ids) (filter (\<lambda>b. conf b \<ge> 0.5) bs))),
      w \<or> list_ex (\<lambda>b. cls b \<in> set weapon_class_ids) (filter (\<lambda>b. conf b \<ge> 0.5) bs))"
  by (induction bs arbitrary: p c w)
     (auto simp: person_class_ids_def vehicle_class_ids_def weapon_class_ids_def)

lemma count_frame_eq:
  "count_frame det = (spec_people_count det, spec_cars_count det, spec_has_weapon det)"
  by (simp add: count_frame_def spec_people_count_def spec_cars_count_def spec_has_weapon_def
      qualifying_def count_boxes_eq split: option.splits)

lemma fold_max_Max: "fold max xs (a::int) = Max (insert a (set xs))"
  using Max.set_eq_fold [of a xs] by simp

lemma process_frames_ok:
  shows "process_frames (\<lambda>f. Some (d f)) iv fs
           \<lparr>max_people = mp, max_cars = mc, st_weapon_present = w,
            frames_to_save = sv, frame_count = k, processed_count = pc\<rparr> tr =
     (Inr \<lparr>max_people = fold max (map (spec_people_count \<circ> d) (sampled_from k iv fs)) mp,
           max_cars = fold max (map (spec_cars_count \<circ> d) (sampled_from k iv fs)) mc,
           st_weapon_present = (w \<or> list_ex (spec_has_weapon \<circ> d) (sampled_from k iv fs)),
           frames_to_save = sv @ map (plot \<circ> d) (sampled_from k iv fs),
           frame_count = k + int (length fs),
           processed_count = pc + int (length (sampled_from k iv fs))\<rparr>,
      tr @ map Detect (sampled_from k iv fs))"
proof (induction fs arbitrary: mp mc w sv k pc tr)
  case Nil
  show ?case by simp
next
  case (Cons f fs)
  show ?case
    by (simp add: Cons.IH count_frame_eq max.commute)
qed

lemma interval_eq:
  assumes "0 < x" "r \<noteq> 0"
  shows "max 1 (py_trunc (x / real_of_int r)) = spec_interval x r"
proof (cases "0 < r")
  case True
  with assms have "0 \<le> x / real_of_int r" by simp
  then show ?thesis by (simp add: py_trunc_def spec_interval_def)
next
  case False
  with assms have neg: "x / real_of_int r < 0" by (simp add: divide_less_0_iff)
  then have "\<lceil>x / real_of_int r\<rceil> \<le> 0" by (simp add: ceiling_le_iff)
  moreover from neg have "\<lfloor>x / real_of_int r\<rfloor> \<le> 0" by (simp add: floor_le_iff)
  ultimately show ?thesis using neg by (simp add: py_trunc_def spec_interval_def)
qed

lemma analyze_video_ok:
  assumes "path_exists v" "is_opened v" "0 < fps v" "rate \<noteq> 0" "fits_float rate"
  shows "analyze_video (\<lambda>f. Some (d f)) v rate =
     (if sampled (spec_interval (fps v) rate) (frames v) \<noteq> [] then
        (Inr \<lparr>r_people = spec_max (map (spec_people_count \<circ> d) (sampled (spec_interval (fps v) rate) (frames v))),
              r_cars = spec_max (map (spec_cars_count \<circ> d) (sampled (spec_interval (fps v) rate) (frames v))),
              r_weapon_present = list_ex (spec_has_weapon \<circ> d) (sampled (spec_interval (fps v) rate) (frames v)),
              r_frames = select_frames (map (plot \<circ> d) (sampled (spec_interval (fps v) rate) (frames v)))\<rparr>,
         Capture # map Detect (sampled (spec_interval (fps v) rate) (frames v)) @ [Release])
      else
        (Inr \<lparr>r_people = 0, r_cars = 0, r_weapon_present = False,
              r_frames = (case reopened_first v of None \<Rightarrow> [] | Some f \<Rightarrow> [plot (d f)])\<rparr>,
         [Capture, Release, Capture]
           @ (case reopened_first v of None \<Rightarrow> [] | Some f \<Rightarrow> [Detect f]) @ [Release]))"
  using assms
  by (simp add: analyze_video_def interval_eq process_frames_ok sampled_from_0 fold_max_Max
      spec_max_def Let_def split: option.splits)

lemma held_append: "held (xs @ ys) = held xs + held ys"
  by (induction xs rule: held.induct) simp_all

lemma process_frames_held:
  "held (snd (process_frames model iv fs st tr)) = held tr"
  by (induction fs arbitrary: st tr) (simp_all add: held_append split_def Let_def split: option.splits)

lemma process_frames_error:
  "fst (process_frames model iv fs st tr) = Inl e \<Longrightarrow> e = DetectorRaised"
  by (induction fs arbitrary: st tr) (auto simp: split_def Let_def split: option.splits if_splits)

lemma process_frames_last:
  "fst (process_frames model iv fs st tr) = Inl e \<Longrightarrow>
     \<exists>f. last (snd (process_frames model iv fs st tr)) = Detect f"
  by (induction fs arbitrary: st tr) (auto simp: split_def Let_def split: option.splits if_splits)

lemma analyze_video_not_found:
  "\<not> path_exists v \<Longrightarrow> analyze_video model v rate = (Inl FileNotFoundError, [])"
  by (simp add: analyze_video_def)

lemma analyze_video_cases:
  assumes "path_exists v"
  shows "(\<not> is_opened v \<or> fps v \<le> 0) \<and> analyze_video model v rate = (Inl ValueError, [Capture])
       \<or> is_opened v \<and> 0 < fps v \<and> \<not> fits_float rate \<and>
           analyze_video model v rate = (Inl OverflowError, [Capture])
       \<or> is_opened v \<and> 0 < fps v \<and> rate = 0 \<and> analyze_video model v rate = (Inl ZeroDivisionError, [Capture])
       \<or> is_opened v \<and> 0 < fps v \<and> rate \<noteq> 0 \<and>
           (\<exists>tr f. analyze_video model v rate = (Inl DetectorRaised, tr) \<and> held tr = 1 \<and> last tr = Detect f)
       \<or> is_opened v \<and> 0 < fps v \<and> rate \<noteq> 0 \<and>
           (\<exists>r tr. analyze_video model v rate = (Inr r, tr) \<and> held tr = 0 \<and> last tr = Release)"
proof (cases "\<not> is_opened v \<or> fps v \<le> 0")
  case True
  with assms show ?thesis by (auto simp: analyze_video_def)
next
  case ok: False
  show ?thesis
  proof (cases "\<not> fits_float rate \<or> rate = 0")
    case True
    with assms ok show ?thesis by (auto simp: analyze_video_def)
  next
    case rate: False
    let ?iv = "max 1 (py_trunc (fps v / real_of_int rate))"
    let ?st0 = "\<lparr>max_people = 0, max_cars = 0, st_weapon_present = False,
                  frames_to_save = [], frame_count = 0, processed_count = 0\<rparr> :: 'b loop_state"
    let ?p = "process_frames model ?iv (frames v) ?st0 [Capture]"
    have h: "held (snd ?p) = 1"
      by (simp add: process_frames_held)
    show ?thesis
    proof (cases "fst ?p")
      case (Inl e)
      then have e: "e = DetectorRaised" by (rule process_frames_error)
      from Inl obtain f where "last (snd ?p) = Detect f"
        using process_frames_last by blast
      with assms ok rate Inl e h show ?thesis
        by (cases ?p) (auto simp: analyze_video_def Let_def)
    next
      case (Inr st)
      with assms ok rate h show ?thesis
        by (cases ?p) (auto simp: analyze_video_def Let_def held_append split: option.splits)
    qed
  qed
qed




text \<open>
  C8.  \<open>analyze_video\<close> fails with \<^verbatim>\<open>FileNotFoundError\<close> (the specification's NotFound)
  exactly when the path does not exist, and with \<^verbatim>\<open>ValueError\<close> (InvalidVideo) exactly
  when the path exists and the capture is not opened or reports a frame rate that is not
  positive; when the path does not exist nothing has been opened: the trace is empty.
\<close>

theorem analyze_video_failures:
  "(fst (analyze_video model v rate) = Inl FileNotFoundError) = (\<not> path_exists v) \<and>
   (fst (analyze_video model v rate) = Inl ValueError) =
     (path_exists v \<and> (\<not> is_opened v \<or> fps v \<le> 0)) \<and>
   (\<not> path_exists v \<longrightarrow> snd (analyze_video model v rate) = [])"
proof (cases "path_exists v")
  case False
  then show ?thesis by (simp add: analyze_video_not_found)
next
  case True
  from analyze_video_cases [OF True, of model rate] True show ?thesis
    by (elim disjE conjE exE) auto
qed

theorem analyze_video_failures_witness:
  "fst (analyze_video raising_detector missing_video 1) = Inl FileNotFoundError \<and>
   snd (analyze_video raising_detector missing_video 1) = []"
  using analyze_video_failures [of raising_detector missing_video 1]
  by (simp add: missing_video_def)

lemma main_pass:
  "takeWhile (\<lambda>e. e \<noteq> Release) (map Detect fs @ Release # rest) = map Detect fs"
  by (induction fs) simp_all

lemma list_ex_set: "list_ex P xs = (\<exists>x \<in> set xs. P x)"
  by (simp add: list_ex_iff)

lemma sampled_empty: "(sampled iv fs = []) = (fs = [])"
  unfolding sampled_from_0 [symmetric] by (cases fs) simp_all

lemma spec_interval_beyond: "0 < x \<Longrightarrow> x < real_of_int r \<Longrightarrow> spec_interval x r = 1"
proof -
  assume x: "0 < x" "x < real_of_int r"
  then have "0 \<le> x / real_of_int r" "x / real_of_int r < 1" by simp_all
  then have "\<lfloor>x / real_of_int r\<rfloor> = 0" by (simp add: floor_eq_iff)
  then show ?thesis by (simp add: spec_interval_def)
qed

text \<open>
  C7, as the code has it.  For a video that exists and opens, a native frame rate above 0
  (and at most \<open>2 ^ 52\<close>), a sampling rate that is not 0 and converts to a float, and a
  detector that does not raise: the interval the code computes is \<open>max 1 \<lfloor>fps / rate\<rfloor>\<close>;
  the function returns; the detector calls made before the capture is released are
  exactly those on the frames whose index is a multiple of the interval, in ascending
  order; people and cars are the maxima over these frames (0 when there is none) of the
  counts of person and of vehicle detections with confidence at least 0.5; and the weapon
  flag says whether one of these frames has a weapon detection with confidence at least
  0.5.
\<close>

theorem sampling_and_aggregation:
  assumes "path_exists v" and "is_opened v" and "0 < fps v" and "fps v \<le> 2 ^ 52"
    and "rate \<noteq> 0" and "fits_float rate"
  shows "max 1 (py_trunc (fps v / real_of_int rate)) = spec_interval (fps v) rate \<and>
    (\<exists>r tr. analyze_video (\<lambda>f. Some (d f)) v rate = (Inr r, tr) \<and>
       takeWhile (\<lambda>e. e \<noteq> Release) tr =
         Capture # map Detect (sampled (spec_interval (fps v) rate) (frames v)) \<and>
       r_people r =
         spec_max (map (\<lambda>f. spec_people_count (d f)) (sampled (spec_interval (fps v) rate) (frames v))) \<and>
       r_cars r =
         spec_max (map (\<lambda>f. spec_cars_count (d f)) (sampled (spec_interval (fps v) rate) (frames v))) \<and>
       r_weapon_present r =
         (\<exists>f \<in> set (sampled (spec_interval (fps v) rate) (frames v)). spec_has_weapon (d f)))"
proof -
  let ?S = "sampled (spec_interval (fps v) rate) (frames v)"
  have iv: "max 1 (py_trunc (fps v / real_of_int rate)) = spec_interval (fps v) rate"
    using assms(3,5) by (rule interval_eq)
  note ok = analyze_video_ok [OF assms(1,2,3,5,6), of d]
  show ?thesis
  proof (cases "?S = []")
    case True
    with ok have "analyze_video (\<lambda>f. Some (d f)) v rate =
        (Inr \<lparr>r_people = 0, r_cars = 0, r_weapon_present = False,
              r_frames = (case reopened_first v of None \<Rightarrow> [] | Some f \<Rightarrow> [plot (d f)])\<rparr>,
         [Capture, Release, Capture]
           @ (case reopened_first v of None \<Rightarrow> [] | Some f \<Rightarrow> [Detect f]) @ [Release])"
      by simp
    with True iv show ?thesis by (simp add: spec_max_def)
  next
    case False
    with ok have "analyze_video (\<lambda>f. Some (d f)) v rate =
        (Inr \<lparr>r_people = spec_max (map (spec_people_count \<circ> d) ?S),
              r_cars = spec_max (map (spec_cars_count \<circ> d) ?S),
              r_weapon_present = list_ex (spec_has_weapon \<circ> d) ?S,
              r_frames = select_frames (map (plot \<circ> d) ?S)\<rparr>,
         Capture # map Detect ?S @ [Release])"
      by simp
    with iv show ?thesis by (simp add: main_pass list_ex_set comp_def)
  qed
qed

theorem sampling_and_aggregation_witness:
  "\<exists>r tr. analyze_video (\<lambda>f. Some (busy_detector f)) ten_frame_video 5 = (Inr r, tr) \<and>
      takeWhile (\<lambda>e. e \<noteq> Release) tr = [Capture, Detect 0, Detect 5] \<and>
      r_people r = 2 \<and> r_cars r = 1 \<and> \<not> r_weapon_present r"
proof -
  have hyps: "path_exists ten_frame_video" "is_opened ten_frame_video"
    "0 < fps ten_frame_video" "fps ten_frame_video \<le> 2 ^ 52" "(5::int) \<noteq> 0" "fits_float 5"
    by (simp_all add: ten_frame_video_def fits_float_def)
  have S: "sampled (spec_interval (fps ten_frame_video) 5) (frames ten_frame_video) = [0, 5]"
    by (simp add: sampled_from_0 [symmetric] spec_interval_def ten_frame_video_def)
  have p: "spec_people_count (busy_detector 0) = 1" "spec_people_count (busy_detector 5) = 2"
    by (simp_all add: spec_people_count_def qualifying_def busy_detector_def person_class_ids_def)
  have c: "spec_cars_count (busy_detector 0) = 0" "spec_cars_count (busy_detector 5) = 1"
    by (simp_all add: spec_cars_count_def qualifying_def busy_detector_def vehicle_class_ids_def)
  have w: "\<not> spec_has_weapon (busy_detector 0)" "\<not> spec_has_weapon (busy_detector 5)"
    by (simp_all add: spec_has_weapon_def qualifying_def busy_detector_def weapon_class_ids_def)
  from sampling_and_aggregation [OF hyps, of busy_detector] show ?thesis
    unfolding S by (simp add: p c w spec_max_def)
qed

text \<open>
  The claim C7 as it is written, for every sampling rate, fails at the rate \<open>2 ^ 1024\<close>:
  the interval of the claim is \<open>max 1 \<lfloor>30 / 2 ^ 1024\<rfloor> = 1\<close>, so that every frame would
  be processed, and the code raises \<^verbatim>\<open>OverflowError\<close> when it converts the rate to a float.
  It also fails at the rate 0, where the code raises \<^verbatim>\<open>ZeroDivisionError\<close>.  In both cases
  no frame is read.
\<close>

theorem sampling_counterexample:
  "0 < fps one_frame_video \<and>
   spec_interval (fps one_frame_video) (2 ^ 1024) = 1 \<and>
   analyze_video (\<lambda>f. Some (plain_detector f)) one_frame_video (2 ^ 1024) =
     (Inl OverflowError, [Capture]) \<and>
   analyze_video (\<lambda>f. Some (plain_detector f)) one_frame_video 0 =
     (Inl ZeroDivisionError, [Capture])"
proof -
  have "spec_interval (fps one_frame_video) (2 ^ 1024) = 1"
    by (rule spec_interval_beyond) (simp_all add: one_frame_video_def)
  then show ?thesis
    by (simp add: analyze_video_def one_frame_video_def fits_float_def)
qed

text \<open>
  C6, as the code has it.  Under the conditions of C7, with the processed frames in order:
  up to three of them are all kept, in order; more than three give the first, the one at
  index \<open>n div 2\<close> and the last, which for ten is the indices 0, 5 and 9.  No frame is
  processed exactly when the first pass reads no frame; then the function makes a second
  capture and reads once: if that read gives a frame, the detector runs once on it and
  its annotated frame is the only representative; if it gives none, the detector is not
  run and there is no representative frame.  Either way people and cars stay 0 and the
  weapon flag stays false.
\<close>

theorem representative_frames:
  assumes "path_exists v" and "is_opened v" and "0 < fps v" and "fps v \<le> 2 ^ 52"
    and "rate \<noteq> 0" and "fits_float rate"
  shows "\<exists>r tr. analyze_video (\<lambda>f. Some (d f)) v rate = (Inr r, tr) \<and>
     (processed_frames d v rate \<noteq> [] \<and> length (processed_frames d v rate) \<le> 3 \<longrightarrow>
        r_frames r = processed_frames d v rate) \<and>
     (3 < length (processed_frames d v rate) \<longrightarrow>
        r_frames r = [processed_frames d v rate ! 0,
                      processed_frames d v rate ! (length (processed_frames d v rate) div 2),
                      processed_frames d v rate ! (length (processed_frames d v rate) - 1)]) \<and>
     (length (processed_frames d v rate) = 10 \<longrightarrow>
        r_frames r = [processed_frames d v rate ! 0, processed_frames d v rate ! 5,
                      processed_frames d v rate ! 9]) \<and>
     (processed_frames d v rate = []) = (frames v = []) \<and>
     (processed_frames d v rate = [] \<longrightarrow>
        r_frames r = (case reopened_first v of None \<Rightarrow> [] | Some f \<Rightarrow> [plot (d f)]) \<and>
        r_people r = 0 \<and> r_cars r = 0 \<and> \<not> r_weapon_present r \<and>
        tr = [Capture, Release, Capture]
               @ (case reopened_first v of None \<Rightarrow> [] | Some f \<Rightarrow> [Detect f]) @ [Release])"
proof -
  let ?S = "sampled (spec_interval (fps v) rate) (frames v)"
  let ?P = "processed_frames d v rate"
  have P: "map (plot \<circ> d) ?S = ?P"
    by (simp add: processed_frames_def comp_def)
  have empty: "(?S = []) = (?P = [])"
    by (simp add: processed_frames_def)
  have first_pass: "(?P = []) = (frames v = [])"
    using empty sampled_empty [of "spec_interval (fps v) rate" "frames v"] by simp
  note ok = analyze_video_ok [OF assms(1,2,3,5,6), of d]
  show ?thesis
  proof (cases "?P = []")
    case True
    with ok empty have "analyze_video (\<lambda>f. Some (d f)) v rate =
        (Inr \<lparr>r_people = 0, r_cars = 0, r_weapon_present = False,
              r_frames = (case reopened_first v of None \<Rightarrow> [] | Some f \<Rightarrow> [plot (d f)])\<rparr>,
         [Capture, Release, Capture]
           @ (case reopened_first v of None \<Rightarrow> [] | Some f \<Rightarrow> [Detect f]) @ [Release])"
      by simp
    with True first_pass show ?thesis by simp
  next
    case False
    with ok empty P have res: "analyze_video (\<lambda>f. Some (d f)) v rate =
        (Inr \<lparr>r_people = spec_max (map (spec_people_count \<circ> d) ?S),
              r_cars = spec_max (map (spec_cars_count \<circ> d) ?S),
              r_weapon_present = list_ex (spec_has_weapon \<circ> d) ?S,
              r_frames = select_frames ?P\<rparr>,
         Capture # map Detect ?S @ [Release])"
      by simp
    have small: "select_frames ?P = ?P" if "length ?P \<le> 3"
      using that by (simp add: select_frames_def)
    have large: "select_frames ?P = [?P ! 0, ?P ! (length ?P div 2), ?P ! (length ?P - 1)]"
      if "3 < length ?P"
      using that False by (simp add: select_frames_def last_conv_nth)
    have ten: "select_frames ?P = [?P ! 0, ?P ! 5, ?P ! 9]" if "length ?P = 10"
      using that large by simp
    from False first_pass small large ten show ?thesis
      unfolding res by simp
  qed
qed

theorem representative_frames_witness:
  "(\<exists>r tr. analyze_video (\<lambda>f. Some (plain_detector f)) ten_frame_video 25 = (Inr r, tr) \<and>
      r_frames r = [0, 5, 9]) \<and>
   (\<exists>r tr. analyze_video (\<lambda>f. Some (plain_detector f)) empty_video 25 = (Inr r, tr) \<and>
      r_frames r = [] \<and> r_people r = 0 \<and> r_cars r = 0 \<and> \<not> r_weapon_present r \<and>
      tr = [Capture, Release, Capture, Release])"
proof -
  have h10: "path_exists ten_frame_video" "is_opened ten_frame_video"
    "0 < fps ten_frame_video" "fps ten_frame_video \<le> 2 ^ 52" "(25::int) \<noteq> 0" "fits_float 25"
    by (simp_all add: ten_frame_video_def fits_float_def)
  have h0: "path_exists empty_video" "is_opened empty_video"
    "0 < fps empty_video" "fps empty_video \<le> 2 ^ 52" "(25::int) \<noteq> 0" "fits_float 25"
    by (simp_all add: empty_video_def fits_float_def)
  have P10: "processed_frames plain_detector ten_frame_video 25 = [0, 1, 2, 3, 4, 5, 6, 7, 8, 9]"
    by (simp add: processed_frames_def sampled_from_0 [symmetric] spec_interval_def
        ten_frame_video_def plain_detector_def)
  have P0: "processed_frames plain_detector empty_video 25 = []"
    by (simp add: processed_frames_def sampled_def empty_video_def)
  have a: "\<exists>r tr. analyze_video (\<lambda>f. Some (plain_detector f)) ten_frame_video 25 = (Inr r, tr) \<and>
      r_frames r = [0, 5, 9]"
    using representative_frames [OF h10, of plain_detector] unfolding P10
    by (simp add: ten_frame_video_def)
  have b: "\<exists>r tr. analyze_video (\<lambda>f. Some (plain_detector f)) empty_video 25 = (Inr r, tr) \<and>
      r_frames r = [] \<and> r_people r = 0 \<and> r_cars r = 0 \<and> \<not> r_weapon_present r \<and>
      tr = [Capture, Release, Capture, Release]"
    using representative_frames [OF h0, of plain_detector] unfolding P0
    by (simp add: empty_video_def)
  from a b show ?thesis by blast
qed

text \<open>
  The claim C6 as it is written says that with no frame processed the detector runs once
  on the first raw frame and that frame is the sole representative.  On the empty video
  no frame is processed, the second capture reads no frame either, the detector is never
  called and the list of representative frames is empty.
\<close>

theorem representative_frames_counterexample:
  "processed_frames plain_detector empty_video 1 = [] \<and>
   analyze_video (\<lambda>f. Some (plain_detector f)) empty_video 1 =
     (Inr \<lparr>r_people = 0, r_cars = 0, r_weapon_present = False, r_frames = []\<rparr>,
      [Capture, Release, Capture, Release])"
  by (simp add: processed_frames_def sampled_def analyze_video_def empty_video_def
      fits_float_def py_trunc_def)

text \<open>
  C9.  The two documented examples: the first sentence gives people 3, cars 2 and no
  weapon; in the second the cars field stays unset, since ``single'' is not a quantity
  word and is not read as 1.
\<close>

theorem extract_claims_examples:
  "extract_claims ''There were three people and two cars in the parking lot. No weapons were present.'' =
     \<lparr>people = Some 3, cars = Some 2, weapon_present = Some False\<rparr> \<and>
   cars (extract_claims ''A single car was parked with no people around.'') = None \<and>
   word_to_number ''single'' = None"
  by code_simp

text \<open>
  C3.  The negation patterns of the code list eight of the fourteen weapon keywords: they
  leave out pistol, rifle and handgun, which the positive pattern has.  A negated pistol
  therefore reads as a weapon that is present, where the same sentence about a gun reads
  as no weapon.
\<close>

theorem negated_pistol_is_positive:
  "weapon_present (extract_claims ''There was no pistol.'') = Some True \<and>
   weapon_present (extract_claims ''There was no gun.'') = Some False \<and>
   weapon_present (extract_claims ''Two men without rifles; handgun missing.'') = Some True"
  by code_simp

end
